theory Spec2Isabelle
  imports Complex_Main "HOL-Library.Sublist"
begin

section \<open>JavaScript values\<close>

text \<open>
  The values that flow through \<^verbatim>\<open>server.js\<close>: change events, payloads and log
  arguments are plain JavaScript values. A finite number is kept exact (a rational);
  IEEE rounding is not modelled.
\<close>

datatype jsnum = NaN | PosInf | NegInf | Fin rat

datatype js =
    Undefined
  | Null
  | Bool bool
  | Num jsnum
  | Str string
  | Arr "js list"
  | Obj "(string \<times> js) list"

text \<open>ToBoolean: the falsy values are undefined, null, false, 0, NaN and the empty string.\<close>

fun truthy :: "js \<Rightarrow> bool" where
  "truthy Undefined = False"
| "truthy Null = False"
| "truthy (Bool b) = b"
| "truthy (Num n) = (n \<noteq> NaN \<and> n \<noteq> Fin 0)"
| "truthy (Str s) = (s \<noteq> [])"
| "truthy (Arr xs) = True"
| "truthy (Obj fs) = True"

text \<open>The operator \<^verbatim>\<open>a || b\<close>.\<close>

definition js_or :: "js \<Rightarrow> js \<Rightarrow> js" where
  "js_or a b = (if truthy a then a else b)"

text \<open>Property access \<^verbatim>\<open>v.k\<close> on an object; a missing property reads as undefined.\<close>

fun get_prop :: "js \<Rightarrow> string \<Rightarrow> js" where
  "get_prop (Obj fs) k = (case map_of fs k of Some v \<Rightarrow> v | None \<Rightarrow> Undefined)"
| "get_prop v k = Undefined"

fun own_keys :: "js \<Rightarrow> string list" where
  "own_keys (Obj fs) = map fst fs"
| "own_keys v = []"

section \<open>The order schema\<close>

text \<open>
  \<^verbatim>\<open>orderSchema\<close>: \<^verbatim>\<open>id\<close> is a required, unique Number; \<^verbatim>\<open>status\<close> is one of three
  strings and defaults to \<^verbatim>\<open>pending\<close>; \<^verbatim>\<open>updated_at\<close> is a date (here a timestamp).
  \<open>object_id\<close> is the document's \<^verbatim>\<open>_id\<close>, the ObjectId it gets when it is created.
\<close>

record order =
  object_id :: nat
  order_id :: rat
  customer_name :: "string option"
  product_name :: "string option"
  status :: string
  updated_at :: nat

definition status_enum :: "string list" where
  "status_enum = [''pending'', ''shipped'', ''delivered'']"

text \<open>
  A request body, \<^verbatim>\<open>req.body\<close>, read through the schema: the fields of the schema it
  sets, each of the schema's type. A body's own \<^verbatim>\<open>updated_at\<close> is overwritten by the
  handlers (\<^verbatim>\<open>{ ...req.body, updated_at: new Date() }\<close>), so it is not a field here.
\<close>

record order_body =
  body_id :: "rat option"
  body_customer_name :: "string option"
  body_product_name :: "string option"
  body_status :: "string option"

section \<open>The server state\<close>

type_synonym socket_id = string

type_synonym message = "string \<times> js"

datatype level = LOG | ERROR | WARN

datatype store_error =
    CastError jsnum
  | ValidationError "string list"
  | DuplicateKey rat

datatype log_arg = JS js | ERR store_error

datatype stream_state = Active | Closed

text \<open>
  What the running process holds and what its clients have seen:
  \<^item> \<open>sockets\<close>: the sockets that socket.io holds as connected (the server \<^verbatim>\<open>io\<close>);
  \<^item> \<open>inbox\<close>: the messages each client has been sent, oldest first;
  \<^item> \<open>console\<close>: the lines written by \<^verbatim>\<open>console.log/error/warn\<close>;
  \<^item> \<open>orders\<close>: the documents of the collection \<^verbatim>\<open>orders\<close>;
  \<^item> \<open>next_object_id\<close>: the next ObjectId the library will generate (ObjectIds are
    unique; here they are counted);
  \<^item> \<open>changeStream\<close>: the subscription opened by \<^verbatim>\<open>start()\<close>.
\<close>

record server =
  sockets :: "socket_id set"
  inbox :: "socket_id \<Rightarrow> message list"
  console :: "(level \<times> log_arg list) list"
  orders :: "order list"
  next_object_id :: nat
  changeStream :: stream_state

definition console_write :: "level \<Rightarrow> log_arg list \<Rightarrow> server \<Rightarrow> server" where
  "console_write l args st = st\<lparr>console := console st @ [(l, args)]\<rparr>"

text \<open>
  \<^verbatim>\<open>io.emit(name, data)\<close> of socket.io's server: the message goes to every socket that
  is connected when the call is made, and to no other (the source's comment:
  ``Broadcast to all connected clients'').
\<close>

definition io_emit :: "string \<Rightarrow> js \<Rightarrow> server \<Rightarrow> server" where
  "io_emit name data st =
     st\<lparr>inbox := (\<lambda>c. if c \<in> sockets st then inbox st c @ [(name, data)] else inbox st c)\<rparr>"

section \<open>The change stream\<close>

text \<open>
  A change event as the driver hands it to the \<^verbatim>\<open>change\<close> listener. \<open>resume_token\<close>
  is the event's \<^verbatim>\<open>_id\<close>, the position in the feed.
\<close>

record change_event =
  resume_token :: js
  operationType :: js
  ns :: js
  documentKey :: js
  fullDocument :: js
  updateDescription :: js

text \<open>The options of \<^verbatim>\<open>collection.watch([], { fullDocument: 'updateLookup' })\<close>.\<close>

record watch_options =
  fullDocument_option :: string

definition watch_options :: watch_options where
  "watch_options = \<lparr>fullDocument_option = ''updateLookup''\<rparr>"

text \<open>
  What the store does with the option on an update event: with \<^verbatim>\<open>updateLookup\<close> it
  looks the document up by its key when the event is delivered and puts the result (the
  document, or null when there is none any more) in \<^verbatim>\<open>fullDocument\<close>; without it an
  update event has no \<^verbatim>\<open>fullDocument\<close>. \<open>lookup\<close> is the collection at that moment.
  Events of other kinds are not touched.
\<close>

definition update_lookup :: "watch_options \<Rightarrow> (js \<Rightarrow> js) \<Rightarrow> change_event \<Rightarrow> change_event" where
  "update_lookup opts lookup change =
     (if operationType change = Str ''update'' then
        (if fullDocument_option opts = ''updateLookup''
         then change\<lparr>fullDocument := lookup (documentKey change)\<rparr>
         else change\<lparr>fullDocument := Undefined\<rparr>)
      else change)"

text \<open>The object literal built by the \<^verbatim>\<open>change\<close> listener.\<close>

definition payload :: "change_event \<Rightarrow> js" where
  "payload change =
     Obj [(''op'', operationType change),
          (''ns'', ns change),
          (''documentKey'', documentKey change),
          (''fullDocument'', js_or (fullDocument change) Null),
          (''updateDescription'', js_or (updateDescription change) Null)]"

text \<open>\<^verbatim>\<open>changeStream.on('change', ...)\<close>: one log line, one payload, one \<^verbatim>\<open>io.emit\<close>.\<close>

definition on_change :: "change_event \<Rightarrow> server \<Rightarrow> server" where
  "on_change change st =
     io_emit ''orderChanged'' (payload change)
       (console_write LOG [JS (Str ''Change detected:''), JS (operationType change)] st)"

text \<open>\<^verbatim>\<open>changeStream.on('error', ...)\<close> and \<^verbatim>\<open>changeStream.on('close', ...)\<close> only log.\<close>

definition on_error :: "js \<Rightarrow> server \<Rightarrow> server" where
  "on_error err st = console_write ERROR [JS (Str ''Change stream error:''), JS err] st"

definition on_close :: "server \<Rightarrow> server" where
  "on_close st = console_write WARN [JS (Str ''Change stream closed'')] st"

section \<open>Socket connections\<close>

text \<open>
  \<^verbatim>\<open>io.on('connection', ...)\<close> logs the socket's id and installs the \<^verbatim>\<open>disconnect\<close>
  listener, which logs it again. Neither touches the set of sockets: socket.io keeps it,
  adding a socket before it calls the \<^verbatim>\<open>connection\<close> listener and removing it when the
  socket disconnects.
\<close>

definition on_connection :: "socket_id \<Rightarrow> server \<Rightarrow> server" where
  "on_connection sid st = console_write LOG [JS (Str ''client connected''), JS (Str sid)] st"

definition on_disconnect :: "socket_id \<Rightarrow> server \<Rightarrow> server" where
  "on_disconnect sid st = console_write LOG [JS (Str ''client disconnected''), JS (Str sid)] st"

definition socket_connect :: "socket_id \<Rightarrow> server \<Rightarrow> server" where
  "socket_connect sid st = on_connection sid (st\<lparr>sockets := insert sid (sockets st)\<rparr>)"

definition socket_disconnect :: "socket_id \<Rightarrow> server \<Rightarrow> server" where
  "socket_disconnect sid st = on_disconnect sid (st\<lparr>sockets := sockets st - {sid}\<rparr>)"

section \<open>The collection, through the model \<^verbatim>\<open>Order\<close>\<close>

text \<open>
  Each operation returns what the awaited call gives (\<open>Inl\<close>: the promise is rejected)
  together with the collection afterwards. The store is taken to be reachable: a lost
  connection, which would reject any of the calls, is not among the errors.

  The library casts a query's filter through the schema: \<^verbatim>\<open>id\<close> is a Number, and its
  cast of a number rejects NaN, so a query on \<^verbatim>\<open>{ id: NaN }\<close> is rejected with a cast
  error before it reaches the collection.
\<close>

definition cast_number :: "jsnum \<Rightarrow> store_error + jsnum" where
  "cast_number n = (if n = NaN then Inl (CastError n) else Inr n)"

definition matches_id :: "jsnum \<Rightarrow> order \<Rightarrow> bool" where
  "matches_id n doc = (Fin (order_id doc) = n)"

fun replace_first :: "('a \<Rightarrow> bool) \<Rightarrow> 'a \<Rightarrow> 'a list \<Rightarrow> 'a list" where
  "replace_first P y [] = []"
| "replace_first P y (x # xs) = (if P x then y # xs else x # replace_first P y xs)"

fun remove_first :: "('a \<Rightarrow> bool) \<Rightarrow> 'a list \<Rightarrow> 'a list" where
  "remove_first P [] = []"
| "remove_first P (x # xs) = (if P x then xs else x # remove_first P xs)"

text \<open>
  \<^verbatim>\<open>Order.create(payload)\<close>: the status defaults to \<^verbatim>\<open>pending\<close>; validation fails on
  a missing \<^verbatim>\<open>id\<close> and on a status outside the enum; the unique index on \<^verbatim>\<open>id\<close>
  refuses a second document with the same \<^verbatim>\<open>id\<close>. \<open>oid\<close> is the ObjectId generated
  for the new document.
\<close>

definition Order_create ::
  "order_body \<Rightarrow> nat \<Rightarrow> nat \<Rightarrow> order list \<Rightarrow> (store_error + order) \<times> order list" where
  "Order_create b now oid docs =
     (let st = (case body_status b of None \<Rightarrow> ''pending'' | Some s \<Rightarrow> s);
          invalid = (if body_id b = None then [''id''] else []) @
                    (if st \<in> set status_enum then [] else [''status''])
      in case body_id b of
           None \<Rightarrow> (Inl (ValidationError invalid), docs)
         | Some i \<Rightarrow>
             if invalid \<noteq> [] then (Inl (ValidationError invalid), docs)
             else if i \<in> set (map order_id docs) then (Inl (DuplicateKey i), docs)
             else
               (let doc = \<lparr>object_id = oid, order_id = i, customer_name = body_customer_name b,
                           product_name = body_product_name b, status = st, updated_at = now\<rparr>
                in (Inr doc, docs @ [doc])))"

text \<open>The update \<^verbatim>\<open>{ ...req.body, updated_at: new Date() }\<close> sets the fields it names.\<close>

definition set_fields :: "order_body \<Rightarrow> nat \<Rightarrow> order \<Rightarrow> order" where
  "set_fields b now doc =
     doc\<lparr>order_id := (case body_id b of None \<Rightarrow> order_id doc | Some i \<Rightarrow> i),
         customer_name := (case body_customer_name b of None \<Rightarrow> customer_name doc | Some n \<Rightarrow> Some n),
         product_name := (case body_product_name b of None \<Rightarrow> product_name doc | Some n \<Rightarrow> Some n),
         status := (case body_status b of None \<Rightarrow> status doc | Some s \<Rightarrow> s),
         updated_at := now\<rparr>"

text \<open>
  \<^verbatim>\<open>Order.findOneAndUpdate({ id }, update, { new: true, upsert: false })\<close>: the first
  document whose \<^verbatim>\<open>id\<close> equals the filter's is updated and returned as it is afterwards;
  with no such document the result is null and, \<^verbatim>\<open>upsert\<close> being false, nothing is
  written. Validators do not run on an update; the unique index still holds.
\<close>

definition Order_findOneAndUpdate ::
  "jsnum \<Rightarrow> order_body \<Rightarrow> nat \<Rightarrow> order list \<Rightarrow> (store_error + order option) \<times> order list" where
  "Order_findOneAndUpdate n b now docs =
     (case cast_number n of
        Inl e \<Rightarrow> (Inl e, docs)
      | Inr m \<Rightarrow>
          (case find (matches_id m) docs of
             None \<Rightarrow> (Inr None, docs)
           | Some doc \<Rightarrow>
               (let doc' = set_fields b now doc
                in if order_id doc' \<noteq> order_id doc \<and> order_id doc' \<in> set (map order_id docs)
                   then (Inl (DuplicateKey (order_id doc')), docs)
                   else (Inr (Some doc'), replace_first (matches_id m) doc' docs))))"

text \<open>\<^verbatim>\<open>Order.findOneAndDelete({ id })\<close>: the first matching document is removed and returned.\<close>

definition Order_findOneAndDelete ::
  "jsnum \<Rightarrow> order list \<Rightarrow> (store_error + order option) \<times> order list" where
  "Order_findOneAndDelete n docs =
     (case cast_number n of
        Inl e \<Rightarrow> (Inl e, docs)
      | Inr m \<Rightarrow>
          (case find (matches_id m) docs of
             None \<Rightarrow> (Inr None, docs)
           | Some doc \<Rightarrow> (Inr (Some doc), remove_first (matches_id m) docs)))"

text \<open>
  \<^verbatim>\<open>Order.find().sort({ updated_at: -1 })\<close>: every document, latest first (the order of
  documents with equal dates is the store's choice; here the later-stored comes first).
\<close>

definition Order_find_sorted :: "order list \<Rightarrow> order list" where
  "Order_find_sorted docs = rev (sort_key updated_at docs)"

section \<open>The documents in the change feed\<close>

text \<open>
  A document of the collection as the store holds it and as a change event carries it:
  the \<^verbatim>\<open>_id\<close>, the fields of the schema that are set, and the version key \<^verbatim>\<open>__v\<close>
  that the library adds. A change event names its document by the document key, the
  \<^verbatim>\<open>_id\<close> alone.
\<close>

definition object_id_js :: "nat \<Rightarrow> js" where
  "object_id_js n = Obj [(''$oid'', Num (Fin (of_nat n)))]"

definition date_js :: "nat \<Rightarrow> js" where
  "date_js t = Obj [(''$date'', Num (Fin (of_nat t)))]"

definition order_to_js :: "order \<Rightarrow> js" where
  "order_to_js doc =
     Obj ([(''_id'', object_id_js (object_id doc)), (''id'', Num (Fin (order_id doc)))] @
          (case customer_name doc of None \<Rightarrow> [] | Some s \<Rightarrow> [(''customer_name'', Str s)]) @
          (case product_name doc of None \<Rightarrow> [] | Some s \<Rightarrow> [(''product_name'', Str s)]) @
          [(''status'', Str (status doc)), (''updated_at'', date_js (updated_at doc)),
           (''__v'', Num (Fin 0))])"

definition document_key :: "order \<Rightarrow> js" where
  "document_key doc = Obj [(''_id'', object_id_js (object_id doc))]"

text \<open>
  The store's point lookup for \<^verbatim>\<open>updateLookup\<close>: the document of the collection that
  has the key, as it is at the time of the lookup, or null when there is none.
\<close>

definition lookup_document :: "order list \<Rightarrow> js \<Rightarrow> js" where
  "lookup_document docs key =
     (case find (\<lambda>doc. document_key doc = key) docs of
        None \<Rightarrow> Null
      | Some doc \<Rightarrow> order_to_js doc)"

section \<open>The Express handlers\<close>

datatype response_body =
    OrderDoc order
  | OrderList "order list"
  | ErrorMessage store_error
  | Message string
  | MessageId string jsnum

record response =
  status_code :: nat
  body :: response_body

datatype http_request =
    PostOrders order_body
  | GetOrders
  | PutOrder jsnum order_body
  | DeleteOrder jsnum

text \<open>\<^verbatim>\<open>app.post('/orders', ...)\<close>; \<open>now\<close> is \<^verbatim>\<open>new Date()\<close>.\<close>

definition post_orders :: "order_body \<Rightarrow> nat \<Rightarrow> server \<Rightarrow> server \<times> response" where
  "post_orders b now st =
     (case Order_create b now (next_object_id st) (orders st) of
        (Inr doc, docs) \<Rightarrow>
          (st\<lparr>orders := docs, next_object_id := Suc (next_object_id st)\<rparr>,
           \<lparr>status_code = 201, body = OrderDoc doc\<rparr>)
      | (Inl err, docs) \<Rightarrow>
          (console_write ERROR [ERR err]
             (st\<lparr>orders := docs, next_object_id := Suc (next_object_id st)\<rparr>),
           \<lparr>status_code = 400, body = ErrorMessage err\<rparr>))"

text \<open>\<^verbatim>\<open>app.get('/orders', ...)\<close>.\<close>

definition get_orders :: "server \<Rightarrow> server \<times> response" where
  "get_orders st = (st, \<lparr>status_code = 200, body = OrderList (Order_find_sorted (orders st))\<rparr>)"

text \<open>
  \<^verbatim>\<open>app.put('/orders/:id', ...)\<close>; \<open>n\<close> is \<^verbatim>\<open>id\<close>, the value of
  \<^verbatim>\<open>Number(req.params.id)\<close>. The conversion is the language's own (its grammar of numeric
  strings, its rounding to a double) and is not written out again here: a request is given
  by the number that the conversion returns, any number at all, NaN when the path segment
  is not a numeric string (as for \<^verbatim>\<open>/orders/abc\<close>).
\<close>

definition put_order :: "jsnum \<Rightarrow> order_body \<Rightarrow> nat \<Rightarrow> server \<Rightarrow> server \<times> response" where
  "put_order n b now st =
     (case Order_findOneAndUpdate n b now (orders st) of
        (Inr None, docs) \<Rightarrow>
          (st\<lparr>orders := docs\<rparr>, \<lparr>status_code = 404, body = Message ''Not found''\<rparr>)
      | (Inr (Some doc), docs) \<Rightarrow>
          (st\<lparr>orders := docs\<rparr>, \<lparr>status_code = 200, body = OrderDoc doc\<rparr>)
      | (Inl err, docs) \<Rightarrow>
          (st\<lparr>orders := docs\<rparr>, \<lparr>status_code = 400, body = ErrorMessage err\<rparr>))"

text \<open>\<^verbatim>\<open>app.delete('/orders/:id', ...)\<close>; \<open>n\<close> is \<^verbatim>\<open>id\<close>, as above.\<close>

definition delete_order :: "jsnum \<Rightarrow> server \<Rightarrow> server \<times> response" where
  "delete_order n st =
     (case Order_findOneAndDelete n (orders st) of
        (Inr None, docs) \<Rightarrow>
          (st\<lparr>orders := docs\<rparr>, \<lparr>status_code = 404, body = Message ''Not found''\<rparr>)
      | (Inr (Some doc), docs) \<Rightarrow>
          (st\<lparr>orders := docs\<rparr>, \<lparr>status_code = 200, body = MessageId ''deleted'' n\<rparr>)
      | (Inl err, docs) \<Rightarrow>
          (st\<lparr>orders := docs\<rparr>, \<lparr>status_code = 500, body = ErrorMessage err\<rparr>))"

fun http :: "http_request \<Rightarrow> nat \<Rightarrow> server \<Rightarrow> server \<times> response" where
  "http (PostOrders b) now st = post_orders b now st"
| "http GetOrders now st = get_orders st"
| "http (PutOrder n b) now st = put_order n b now st"
| "http (DeleteOrder n) now st = delete_order n st"

section \<open>The running server\<close>

text \<open>
  What can happen to the process once \<^verbatim>\<open>start()\<close> has opened the change stream and the
  server listens: a socket connects or disconnects; the change stream emits a change,
  meets a transient error, emits an error, is closed; a request arrives (with the time at
  which it is handled).
\<close>

datatype event =
    Connect socket_id
  | Disconnect socket_id
  | Change change_event
  | TransientError js
  | StreamError js
  | StreamClose
  | Request http_request nat

text \<open>
  Node runs one listener at a time, to its end. The \<^verbatim>\<open>disconnect\<close> listener exists on
  connected sockets only.

  The change stream is the driver's. It emits \<^verbatim>\<open>change\<close> while it is open. A transient
  error (a network drop, an expired cursor) it deals with itself, by resuming the stream:
  no listener is called (the README: change streams ``handle network interruptions and
  reconnections''). An error that it gives up on it emits as \<^verbatim>\<open>error\<close>, and when the
  stream is closed it emits \<^verbatim>\<open>close\<close>; the two listeners of the source only log, and
  the order of the two emissions is the driver's. A closed stream emits no change.
\<close>

fun step :: "server \<Rightarrow> event \<Rightarrow> server" where
  "step st (Connect sid) = socket_connect sid st"
| "step st (Disconnect sid) = (if sid \<in> sockets st then socket_disconnect sid st else st)"
| "step st (Change change) = (if changeStream st = Active then on_change change st else st)"
| "step st (TransientError err) = st"
| "step st (StreamError err) = on_error err st"
| "step st StreamClose = (on_close st)\<lparr>changeStream := Closed\<rparr>"
| "step st (Request r now) = fst (http r now st)"

fun run :: "server \<Rightarrow> event list \<Rightarrow> server" where
  "run st [] = st"
| "run st (e # es) = run (step st e) es"

text \<open>The records of a sequence of events, in the order of the feed.\<close>

fun records :: "event list \<Rightarrow> message list" where
  "records [] = []"
| "records (Change change # es) = (''orderChanged'', payload change) # records es"
| "records (e # es) = records es"

text \<open>What one event adds to the inbox of client \<open>c\<close>.\<close>

definition delivered :: "server \<Rightarrow> event \<Rightarrow> socket_id \<Rightarrow> message list" where
  "delivered st e c =
     (case e of
        Change change \<Rightarrow>
          if changeStream st = Active \<and> c \<in> sockets st
          then [(''orderChanged'', payload change)] else []
      | _ \<Rightarrow> [])"

text \<open>The messages about one document: those whose payload has the document key \<open>k\<close>.\<close>

definition of_key :: "js \<Rightarrow> message list \<Rightarrow> message list" where
  "of_key k ms = filter (\<lambda>m. get_prop (snd m) ''documentKey'' = k) ms"

text \<open>Two states that differ at most in what was written to the console.\<close>

definition same_view :: "server \<Rightarrow> server \<Rightarrow> bool" where
  "same_view s t \<longleftrightarrow>
     sockets s = sockets t \<and> inbox s = inbox t \<and> orders s = orders t \<and>
     next_object_id s = next_object_id t \<and> changeStream s = changeStream t"

section \<open>Examples\<close>

text \<open>
  The order of the README (\<^verbatim>\<open>id\<close> 200, created pending, then shipped, then deleted):
  the document, the body of the \<^verbatim>\<open>PUT\<close> that ships it, the three events of its life,
  and a server with one connected client.
\<close>

definition orders_ns :: js where
  "orders_ns = Obj [(''db'', Str ''test''), (''coll'', Str ''orders'')]"

definition bob_order :: order where
  "bob_order =
     \<lparr>object_id = 1, order_id = 200, customer_name = Some ''Bob'',
      product_name = Some ''T-shirt'', status = ''pending'', updated_at = 1\<rparr>"

definition shipped_body :: order_body where
  "shipped_body =
     \<lparr>body_id = None, body_customer_name = None, body_product_name = Some ''T-shirt XL'',
      body_status = Some ''shipped''\<rparr>"

definition key_200 :: js where
  "key_200 = document_key bob_order"

definition pending_200 :: js where
  "pending_200 = order_to_js bob_order"

definition insert_200 :: change_event where
  "insert_200 =
     \<lparr>resume_token = Str ''8264'', operationType = Str ''insert'', ns = orders_ns,
      documentKey = key_200, fullDocument = pending_200, updateDescription = Undefined\<rparr>"

definition update_200 :: change_event where
  "update_200 =
     \<lparr>resume_token = Str ''8265'', operationType = Str ''update'', ns = orders_ns,
      documentKey = key_200, fullDocument = Undefined,
      updateDescription =
        Obj [(''updatedFields'', Obj [(''status'', Str ''shipped''),
                                      (''product_name'', Str ''T-shirt XL'')]),
             (''removedFields'', Arr [])]\<rparr>"

definition delete_200 :: change_event where
  "delete_200 =
     \<lparr>resume_token = Str ''8266'', operationType = Str ''delete'', ns = orders_ns,
      documentKey = key_200, fullDocument = Undefined, updateDescription = Undefined\<rparr>"

definition one_client :: server where
  "one_client =
     \<lparr>sockets = {''a''}, inbox = (\<lambda>c. []), console = [], orders = [],
      next_object_id = 3, changeStream = Active\<rparr>"

definition one_order :: server where
  "one_order = one_client\<lparr>orders := [bob_order]\<rparr>"



section \<open>Frame lemmas\<close>

lemma post_frame:
  "inbox (fst (post_orders b now st)) = inbox st"
  "sockets (fst (post_orders b now st)) = sockets st"
  "changeStream (fst (post_orders b now st)) = changeStream st"
  by (simp_all add: post_orders_def console_write_def split: prod.splits sum.splits)

lemma put_frame:
  "inbox (fst (put_order p b now st)) = inbox st"
  "sockets (fst (put_order p b now st)) = sockets st"
  "changeStream (fst (put_order p b now st)) = changeStream st"
  by (simp_all add: put_order_def Let_def split: prod.splits sum.splits option.splits)

lemma delete_frame:
  "inbox (fst (delete_order p st)) = inbox st"
  "sockets (fst (delete_order p st)) = sockets st"
  "changeStream (fst (delete_order p st)) = changeStream st"
  by (simp_all add: delete_order_def Let_def split: prod.splits sum.splits option.splits)

lemma http_frame:
  "inbox (fst (http r now st)) = inbox st"
  "sockets (fst (http r now st)) = sockets st"
  "changeStream (fst (http r now st)) = changeStream st"
  by (cases r; simp add: post_frame put_frame delete_frame get_orders_def)+


lemmas listener_defs = socket_connect_def socket_disconnect_def on_connection_def
     on_disconnect_def on_change_def on_error_def on_close_def io_emit_def console_write_def

lemma step_inbox: "inbox (step st e) c = inbox st c @ delivered st e c"
  by (cases e) (simp_all add: delivered_def listener_defs http_frame)

lemma step_sockets:
  "sockets (step st e) =
     (case e of Connect c \<Rightarrow> insert c (sockets st) | Disconnect c \<Rightarrow> sockets st - {c} | _ \<Rightarrow> sockets st)"
  by (cases e) (auto simp add: listener_defs http_frame)

lemma step_stream:
  "changeStream (step st e) =
     (case e of StreamClose \<Rightarrow> Closed | _ \<Rightarrow> changeStream st)"
  by (cases e) (simp_all add: listener_defs http_frame)


section \<open>Delivery follows the feed\<close>

lemma delivered_subseq:
  "subseq ms (records es) \<Longrightarrow> subseq (delivered st e c @ ms) (records (e # es))"
  by (cases e) (auto simp add: delivered_def)

lemma run_inbox_subseq:
  "\<exists>ms. inbox (run st es) c = inbox st c @ ms \<and> subseq ms (records es)"
proof (induction es arbitrary: st)
  case Nil
  then show ?case by simp
next
  case (Cons e es)
  from Cons.IH [of "step st e"] obtain ms where
    ms: "inbox (run (step st e) es) c = inbox (step st e) c @ ms" "subseq ms (records es)" by blast
  have "subseq (delivered st e c @ ms) (records (e # es))"
    using ms(2) by (rule delivered_subseq)
  with ms(1) show ?case by (simp add: step_inbox)
qed

lemma delivered_connected:
  assumes "changeStream st = Active" "c \<in> sockets st"
  shows "delivered st e c @ records es = records (e # es)"
  using assms by (cases e) (simp_all add: delivered_def)

lemma run_inbox_connected:
  assumes "changeStream st = Active" "c \<in> sockets st"
    and "Disconnect c \<notin> set es" "StreamClose \<notin> set es"
  shows "inbox (run st es) c = inbox st c @ records es"
  using assms
proof (induction es arbitrary: st)
  case Nil
  then show ?case by simp
next
  case (Cons e es)
  have a: "changeStream (step st e) = Active"
    using Cons.prems(1,4) by (auto simp add: step_stream split: event.splits)
  have s: "c \<in> sockets (step st e)"
    using Cons.prems(2,3) by (auto simp add: step_sockets split: event.splits)
  have "inbox (run (step st e) es) c = inbox (step st e) c @ records es"
    using Cons.prems(3,4) by (intro Cons.IH [OF a s]) auto
  then show ?case
    using delivered_connected [OF Cons.prems(1,2), of e es] by (simp add: step_inbox)
qed

text \<open>
  C1. Whatever else happens (connections, requests, errors), what a client receives during
  a run is a subsequence of the records of the change events in feed order, each at most
  once and never reordered, and so it is for the records of any one document key. A client
  that stays connected while the stream stays open receives exactly the records of the
  feed, in feed order: the listener makes one \<^verbatim>\<open>io.emit\<close> per event, when the event
  arrives.
\<close>

theorem delivery_order:
  "\<exists>ms. inbox (run st es) c = inbox st c @ ms \<and>
        subseq ms (records es) \<and>
        subseq (of_key k ms) (of_key k (records es)) \<and>
        (changeStream st = Active \<and> c \<in> sockets st \<and> Disconnect c \<notin> set es \<and>
         StreamClose \<notin> set es \<longrightarrow> ms = records es)"
proof -
  obtain ms where ms: "inbox (run st es) c = inbox st c @ ms" "subseq ms (records es)"
    using run_inbox_subseq by blast
  have "subseq (of_key k ms) (of_key k (records es))"
    unfolding of_key_def using ms(2) by simp
  moreover have "ms = records es"
    if "changeStream st = Active" "c \<in> sockets st" "Disconnect c \<notin> set es"
       "StreamClose \<notin> set es"
    using run_inbox_connected [OF that] ms(1) by simp
  ultimately show ?thesis using ms by blast
qed


theorem delivery_order_witness:
  "inbox (run one_client
       [Change insert_200, Connect ''b'', Change update_200, Request GetOrders 5,
        Disconnect ''b'', Change delete_200]) ''a'' =
     [(''orderChanged'', payload insert_200), (''orderChanged'', payload update_200),
      (''orderChanged'', payload delete_200)]"
proof -
  let ?es = "[Change insert_200, Connect ''b'', Change update_200, Request GetOrders 5,
        Disconnect ''b'', Change delete_200]"
  have h: "changeStream one_client = Active \<and> ''a'' \<in> sockets one_client \<and>
      Disconnect ''a'' \<notin> set ?es \<and> StreamClose \<notin> set ?es"
    by (simp add: one_client_def)
  from delivery_order [of one_client ?es "''a''" key_200] obtain ms where
    "inbox (run one_client ?es) ''a'' = inbox one_client ''a'' @ ms"
    "changeStream one_client = Active \<and> ''a'' \<in> sockets one_client \<and>
      Disconnect ''a'' \<notin> set ?es \<and> StreamClose \<notin> set ?es \<longrightarrow> ms = records ?es"
    by blast
  with h have "inbox (run one_client ?es) ''a'' = inbox one_client ''a'' @ records ?es"
    by blast
  then show ?thesis by (simp add: one_client_def)
qed

lemma run_stays_connected:
  "c \<in> sockets st \<Longrightarrow> Disconnect c \<notin> set es \<Longrightarrow> c \<in> sockets (run st es)"
proof (induction es arbitrary: st)
  case Nil
  then show ?case by simp
next
  case (Cons e es)
  have "c \<in> sockets (step st e)"
    using Cons.prems by (auto simp add: step_sockets split: event.splits)
  then show ?case using Cons.prems(2) by (simp add: Cons.IH)
qed

lemma run_stays_disconnected:
  "c \<notin> sockets st \<Longrightarrow> Connect c \<notin> set es \<Longrightarrow> c \<notin> sockets (run st es)"
proof (induction es arbitrary: st)
  case Nil
  then show ?case by simp
next
  case (Cons e es)
  have "c \<notin> sockets (step st e)"
    using Cons.prems by (auto simp add: step_sockets split: event.splits)
  then show ?case using Cons.prems(2) by (simp add: Cons.IH)
qed

section \<open>Who receives a record\<close>

text \<open>
  C2. The record of a change event E goes to the sockets connected at the moment of the
  broadcast and to no other, once each. So a client that connected before E and has not
  disconnected since receives exactly one record for E, and a client that disconnected
  before E (and has not connected again) receives none.
\<close>

theorem broadcast_to_active_set:
  "inbox (step s (Change E)) d =
     inbox s d @ (if changeStream s = Active \<and> d \<in> sockets s
                  then [(''orderChanged'', payload E)] else []) \<and>
   (Disconnect c \<notin> set es \<and> changeStream (run (step st (Connect c)) es) = Active \<longrightarrow>
      inbox (step (run (step st (Connect c)) es) (Change E)) c =
        inbox (run (step st (Connect c)) es) c @ [(''orderChanged'', payload E)]) \<and>
   (Connect c \<notin> set es \<longrightarrow>
      inbox (step (run (step st (Disconnect c)) es) (Change E)) c =
        inbox (run (step st (Disconnect c)) es) c)"
proof (intro conjI impI)
  show "inbox (step s (Change E)) d =
     inbox s d @ (if changeStream s = Active \<and> d \<in> sockets s
                  then [(''orderChanged'', payload E)] else [])"
    by (simp add: step_inbox delivered_def del: step.simps)
next
  assume a: "Disconnect c \<notin> set es \<and> changeStream (run (step st (Connect c)) es) = Active"
  have "c \<in> sockets (step st (Connect c))" by (simp add: step_sockets del: step.simps)
  then have "c \<in> sockets (run (step st (Connect c)) es)"
    using a by (simp add: run_stays_connected)
  then show "inbox (step (run (step st (Connect c)) es) (Change E)) c =
        inbox (run (step st (Connect c)) es) c @ [(''orderChanged'', payload E)]"
    using a by (simp add: step_inbox delivered_def del: step.simps)
next
  assume a: "Connect c \<notin> set es"
  have "c \<notin> sockets (step st (Disconnect c))" by (simp add: step_sockets del: step.simps)
  then have "c \<notin> sockets (run (step st (Disconnect c)) es)"
    using a by (simp add: run_stays_disconnected)
  then show "inbox (step (run (step st (Disconnect c)) es) (Change E)) c =
        inbox (run (step st (Disconnect c)) es) c"
    by (simp add: step_inbox delivered_def del: step.simps)
qed

theorem broadcast_to_active_set_witness:
  "inbox (step (run (step one_client (Connect ''b'')) [Change insert_200, Disconnect ''a''])
       (Change update_200)) ''b'' =
     [(''orderChanged'', payload insert_200), (''orderChanged'', payload update_200)] \<and>
   inbox (step (run (step one_client (Disconnect ''a'')) [Connect ''b'', Change insert_200])
       (Change update_200)) ''a'' = []"
proof -
  let ?s1 = "run (step one_client (Connect ''b'')) [Change insert_200, Disconnect ''a'']"
  let ?s2 = "run (step one_client (Disconnect ''a'')) [Connect ''b'', Change insert_200]"
  have s1: "changeStream ?s1 = Active" "inbox ?s1 ''b'' = [(''orderChanged'', payload insert_200)]"
    by (simp_all add: one_client_def listener_defs)
  have s2: "inbox ?s2 ''a'' = []"
    by (simp add: one_client_def listener_defs)
  have h1: "Disconnect ''b'' \<notin> set [Change insert_200, Disconnect ''a''] \<and> changeStream ?s1 = Active"
    using s1 by simp
  have h2: "Connect ''a'' \<notin> set [Connect ''b'', Change insert_200]" by simp
  note t1 = broadcast_to_active_set [of one_client update_200 "''b''" "''b''"
      "[Change insert_200, Disconnect ''a'']" one_client]
  note t2 = broadcast_to_active_set [of one_client update_200 "''a''" "''a''"
      "[Connect ''b'', Change insert_200]" one_client]
  from t1 h1 have "inbox (step ?s1 (Change update_200)) ''b'' =
      inbox ?s1 ''b'' @ [(''orderChanged'', payload update_200)]" by blast
  moreover from t2 h2 have "inbox (step ?s2 (Change update_200)) ''a'' = inbox ?s2 ''a''" by blast
  ultimately show ?thesis using s1 s2 by simp
qed



section \<open>Errors on the change stream\<close>





section \<open>What a record carries\<close>

lemma payload_update_lookup:
  "operationType change = Str ''update'' \<Longrightarrow>
   payload (update_lookup watch_options lookup change) =
     Obj [(''op'', Str ''update''), (''ns'', ns change), (''documentKey'', documentKey change),
          (''fullDocument'', js_or (lookup (documentKey change)) Null),
          (''updateDescription'', js_or (updateDescription change) Null)]"
  by (simp add: payload_def update_lookup_def watch_options_def)

lemma change_to_connected:
  "changeStream st = Active \<Longrightarrow> c \<in> sockets st \<Longrightarrow>
   inbox (step st (Change change)) c = inbox st c @ [(''orderChanged'', payload change)]"
  by (simp add: step_inbox delivered_def del: step.simps)

lemma document_key_eq: "document_key d = document_key d' \<longleftrightarrow> object_id d = object_id d'"
  by (simp add: document_key_def object_id_js_def)

lemma lookup_member:
  "distinct (map object_id docs) \<Longrightarrow> doc \<in> set docs \<Longrightarrow>
   lookup_document docs (document_key doc) = order_to_js doc"
proof -
  assume d: "distinct (map object_id docs)" and m: "doc \<in> set docs"
  then have "find (\<lambda>x. document_key x = document_key doc) docs = Some doc"
  proof (induction docs)
    case Nil
    then show ?case by simp
  next
    case (Cons x xs)
    show ?case
    proof (cases "x = doc")
      case True
      then show ?thesis by simp
    next
      case False
      with Cons.prems have "doc \<in> set xs" "object_id x \<noteq> object_id doc" by auto
      with Cons show ?thesis by (simp add: document_key_eq)
    qed
  qed
  then show ?thesis by (simp add: lookup_document_def)
qed

lemma truthy_order_to_js: "js_or (order_to_js doc) Null = order_to_js doc"
  by (simp add: js_or_def order_to_js_def)

lemma replace_first_found:
  "find P docs = Some doc \<Longrightarrow> object_id doc' = object_id doc \<Longrightarrow>
   doc' \<in> set (replace_first P doc' docs) \<and>
   map object_id (replace_first P doc' docs) = map object_id docs"
  by (induction docs) (auto split: if_splits)

lemma put_order_updated:
  assumes "put_order n b now st = (st', \<lparr>status_code = 200, body = OrderDoc doc'\<rparr>)"
  shows "\<exists>pre. find (matches_id n) (orders st) = Some pre \<and> doc' = set_fields b now pre \<and>
           st' = st\<lparr>orders := replace_first (matches_id n) doc' (orders st)\<rparr>"
  using assms
  by (auto simp add: put_order_def Order_findOneAndUpdate_def cast_number_def Let_def
      split: sum.splits option.splits if_splits)

lemma find_member: "find P xs = Some x \<Longrightarrow> x \<in> set xs \<and> P x"
  by (induction xs) (auto split: if_splits)

lemma order_to_js_props:
  "get_prop (order_to_js doc) ''status'' = Str (status doc)"
  "get_prop (order_to_js doc) ''updated_at'' = date_js (updated_at doc)"
  by (simp_all add: order_to_js_def split: option.splits)

text \<open>
  C4. The subscription asks for \<^verbatim>\<open>updateLookup\<close>. So, for every update event, the record
  that is broadcast carries the document that the collection holds under the event's key
  when the store looks it up, whole. After \<^verbatim>\<open>PUT /orders/:id\<close> has updated an order,
  the record of its update event, looked up in the collection as the update left it,
  carries the order as it is after the update (the document the handler answered with: the
  one before with the fields of the body and the new date set), not as it was before; a
  status in the body is the status in the record; every connected client receives it.
\<close>

theorem update_carries_post_image:
  "(distinct (map object_id docs) \<and> doc \<in> set docs \<and>
    operationType change = Str ''update'' \<and> documentKey change = document_key doc \<longrightarrow>
      get_prop (payload (update_lookup watch_options (lookup_document docs) change))
        ''fullDocument'' = order_to_js doc) \<and>
   (distinct (map object_id (orders st)) \<and>
    put_order n b now st = (st', \<lparr>status_code = 200, body = OrderDoc doc'\<rparr>) \<and>
    operationType change = Str ''update'' \<and> documentKey change = document_key doc' \<longrightarrow>
      (\<exists>pre. pre \<in> set (orders st) \<and> matches_id n pre \<and> doc' = set_fields b now pre) \<and>
      get_prop (payload (update_lookup watch_options (lookup_document (orders st')) change))
        ''fullDocument'' = order_to_js doc' \<and>
      get_prop (order_to_js doc') ''updated_at'' = date_js now \<and>
      (\<forall>s. body_status b = Some s \<longrightarrow> get_prop (order_to_js doc') ''status'' = Str s) \<and>
      (changeStream st' = Active \<and> c \<in> sockets st' \<longrightarrow>
         inbox (step st' (Change (update_lookup watch_options (lookup_document (orders st')) change))) c =
           inbox st' c @
           [(''orderChanged'',
             payload (update_lookup watch_options (lookup_document (orders st')) change))]))"
proof (intro conjI impI)
  assume a: "distinct (map object_id docs) \<and> doc \<in> set docs \<and>
    operationType change = Str ''update'' \<and> documentKey change = document_key doc"
  then show "get_prop (payload (update_lookup watch_options (lookup_document docs) change))
        ''fullDocument'' = order_to_js doc"
    by (simp add: payload_update_lookup lookup_member truthy_order_to_js)
next
  assume a: "distinct (map object_id (orders st)) \<and>
    put_order n b now st = (st', \<lparr>status_code = 200, body = OrderDoc doc'\<rparr>) \<and>
    operationType change = Str ''update'' \<and> documentKey change = document_key doc'"
  then obtain pre where pre: "find (matches_id n) (orders st) = Some pre"
      "doc' = set_fields b now pre"
      "st' = st\<lparr>orders := replace_first (matches_id n) doc' (orders st)\<rparr>"
    using put_order_updated by blast
  have o: "object_id doc' = object_id pre"
    by (simp add: pre(2) set_fields_def)
  from replace_first_found [OF pre(1) o] a pre(3)
  have m: "doc' \<in> set (orders st')" and d: "distinct (map object_id (orders st'))"
    by simp_all
  show "\<exists>pre. pre \<in> set (orders st) \<and> matches_id n pre \<and> doc' = set_fields b now pre"
    using find_member [OF pre(1)] pre(2) by blast
  show "get_prop (payload (update_lookup watch_options (lookup_document (orders st')) change))
        ''fullDocument'' = order_to_js doc'"
    using a by (simp add: payload_update_lookup lookup_member [OF d m] truthy_order_to_js)
  show "get_prop (order_to_js doc') ''updated_at'' = date_js now"
    by (simp add: order_to_js_props pre(2) set_fields_def)
  show "\<forall>s. body_status b = Some s \<longrightarrow> get_prop (order_to_js doc') ''status'' = Str s"
    by (simp add: order_to_js_props pre(2) set_fields_def)
  show "inbox (step st' (Change (update_lookup watch_options (lookup_document (orders st')) change))) c =
           inbox st' c @
           [(''orderChanged'',
             payload (update_lookup watch_options (lookup_document (orders st')) change))]"
    if "changeStream st' = Active \<and> c \<in> sockets st'"
    using that by (intro change_to_connected) simp_all
qed

text \<open>
  The order of the README, created pending, is shipped by a \<^verbatim>\<open>PUT\<close>: the record of the
  update that the client receives has the status shipped.
\<close>

theorem update_carries_post_image_witness:
  "status bob_order = ''pending'' \<and>
   put_order (Fin 200) shipped_body 7 one_order =
     (one_order\<lparr>orders := [set_fields shipped_body 7 bob_order]\<rparr>,
      \<lparr>status_code = 200, body = OrderDoc (set_fields shipped_body 7 bob_order)\<rparr>) \<and>
   get_prop (get_prop (snd (last (inbox
       (step (one_order\<lparr>orders := [set_fields shipped_body 7 bob_order]\<rparr>)
          (Change (update_lookup watch_options
                     (lookup_document [set_fields shipped_body 7 bob_order]) update_200)))
       ''a''))) ''fullDocument'') ''status'' = Str ''shipped''"
proof -
  let ?doc' = "set_fields shipped_body 7 bob_order"
  let ?st' = "one_order\<lparr>orders := [?doc']\<rparr>"
  let ?delivered = "update_lookup watch_options (lookup_document (orders ?st')) update_200"
  have p: "put_order (Fin 200) shipped_body 7 one_order =
      (?st', \<lparr>status_code = 200, body = OrderDoc ?doc'\<rparr>)"
    by (simp add: put_order_def Order_findOneAndUpdate_def cast_number_def matches_id_def
        one_order_def one_client_def bob_order_def shipped_body_def set_fields_def Let_def)
  have h: "distinct (map object_id (orders one_order)) \<and>
      put_order (Fin 200) shipped_body 7 one_order =
        (?st', \<lparr>status_code = 200, body = OrderDoc ?doc'\<rparr>) \<and>
      operationType update_200 = Str ''update'' \<and> documentKey update_200 = document_key ?doc'"
    using p by (simp add: one_order_def one_client_def update_200_def key_200_def
        document_key_def set_fields_def)
  have s: "body_status shipped_body = Some ''shipped''"
    by (simp add: shipped_body_def)
  have a: "changeStream ?st' = Active \<and> ''a'' \<in> sockets ?st'"
    by (simp add: one_order_def one_client_def)
  note t = update_carries_post_image [where st = one_order and n = "Fin 200" and
      b = shipped_body and now = 7 and st' = ?st' and doc' = ?doc' and change = update_200 and
      c = "''a''"]
  from t h have f: "get_prop (payload ?delivered) ''fullDocument'' = order_to_js ?doc'"
    by blast
  from t h s have g: "get_prop (order_to_js ?doc') ''status'' = Str ''shipped''"
    by blast
  from t h a have "inbox (step ?st' (Change ?delivered)) ''a'' =
      inbox ?st' ''a'' @ [(''orderChanged'', payload ?delivered)]"
    by blast
  then have "snd (last (inbox (step ?st' (Change ?delivered)) ''a'')) = payload ?delivered"
    by simp
  with f g p show ?thesis by (simp add: bob_order_def del: step.simps)
qed

lemma records_from_changes:
  "m \<in> set (records es) \<Longrightarrow> \<exists>change. Change change \<in> set es \<and> m = (''orderChanged'', payload change)"
proof (induction es)
  case Nil
  then show ?case by simp
next
  case (Cons e es)
  then show ?case by (cases e) auto
qed

lemma subseq_records_from_changes:
  assumes "subseq ms (records es)" "m \<in> set ms"
  shows "\<exists>change. Change change \<in> set es \<and> m = (''orderChanged'', payload change)"
proof -
  from assms obtain y where "y \<in> set (records es)" "m = y"
    by (rule list_emb_set)
  then show ?thesis using records_from_changes by blast
qed

text \<open>
  C5. Every message that a run adds to a client's inbox is an \<^verbatim>\<open>orderChanged\<close> message
  whose payload was built from a change event of the run. A payload has exactly the five
  properties \<^verbatim>\<open>op\<close>, \<^verbatim>\<open>ns\<close>, \<^verbatim>\<open>documentKey\<close>, \<^verbatim>\<open>fullDocument\<close> and
  \<^verbatim>\<open>updateDescription\<close>, the first three taken from the event as they are and the last
  two taken from the event or null; it does not depend on the event's resume token.
\<close>

theorem pushed_messages_shape:
  "(\<exists>ms. inbox (run st es) c = inbox st c @ ms \<and>
         (\<forall>m \<in> set ms. \<exists>change. Change change \<in> set es \<and> m = (''orderChanged'', payload change))) \<and>
   own_keys (payload change) = [''op'', ''ns'', ''documentKey'', ''fullDocument'', ''updateDescription''] \<and>
   get_prop (payload change) ''op'' = operationType change \<and>
   get_prop (payload change) ''ns'' = ns change \<and>
   get_prop (payload change) ''documentKey'' = documentKey change \<and>
   get_prop (payload change) ''fullDocument'' = (if truthy (fullDocument change) then fullDocument change else Null) \<and>
   get_prop (payload change) ''updateDescription'' =
     (if truthy (updateDescription change) then updateDescription change else Null) \<and>
   payload (change\<lparr>resume_token := t\<rparr>) = payload change"
proof -
  obtain ms where ms: "inbox (run st es) c = inbox st c @ ms" "subseq ms (records es)"
    using run_inbox_subseq by blast
  have "\<forall>m \<in> set ms. \<exists>change. Change change \<in> set es \<and> m = (''orderChanged'', payload change)"
    using subseq_records_from_changes [OF ms(2)] by blast
  with ms(1) have "\<exists>ms. inbox (run st es) c = inbox st c @ ms \<and>
         (\<forall>m \<in> set ms. \<exists>change. Change change \<in> set es \<and> m = (''orderChanged'', payload change))"
    by blast
  then show ?thesis by (simp add: payload_def js_or_def)
qed

theorem pushed_messages_shape_witness:
  "inbox (run one_client [Connect ''b'', Change insert_200, Request GetOrders 3, Change delete_200]) ''b'' =
     [(''orderChanged'',
       Obj [(''op'', Str ''insert''), (''ns'', orders_ns), (''documentKey'', key_200),
            (''fullDocument'', pending_200), (''updateDescription'', Null)]),
      (''orderChanged'',
       Obj [(''op'', Str ''delete''), (''ns'', orders_ns), (''documentKey'', key_200),
            (''fullDocument'', Null), (''updateDescription'', Null)])] \<and>
   (\<exists>change. Change change \<in> set [Connect ''b'', Change insert_200, Request GetOrders 3, Change delete_200] \<and>
      (''orderChanged'',
       Obj [(''op'', Str ''delete''), (''ns'', orders_ns), (''documentKey'', key_200),
            (''fullDocument'', Null), (''updateDescription'', Null)]) = (''orderChanged'', payload change))"
proof -
  let ?es = "[Connect ''b'', Change insert_200, Request GetOrders 3, Change delete_200]"
  let ?m = "(''orderChanged'',
       Obj [(''op'', Str ''delete''), (''ns'', orders_ns), (''documentKey'', key_200),
            (''fullDocument'', Null), (''updateDescription'', Null)])"
  have p: "truthy pending_200"
    by (simp add: pending_200_def order_to_js_def)
  have i: "inbox (run one_client ?es) ''b'' =
     [(''orderChanged'',
       Obj [(''op'', Str ''insert''), (''ns'', orders_ns), (''documentKey'', key_200),
            (''fullDocument'', pending_200), (''updateDescription'', Null)]), ?m]"
    by (simp add: one_client_def insert_200_def delete_200_def p listener_defs
        payload_def js_or_def get_orders_def)
  from pushed_messages_shape [of one_client ?es "''b''" insert_200 Null] obtain ms where
    ms: "inbox (run one_client ?es) ''b'' = inbox one_client ''b'' @ ms"
      "\<forall>m \<in> set ms. \<exists>change. Change change \<in> set ?es \<and> m = (''orderChanged'', payload change)"
    by blast
  from ms(1) i have "?m \<in> set ms" by (simp add: one_client_def)
  with ms(2) have "\<exists>change. Change change \<in> set ?es \<and> ?m = (''orderChanged'', payload change)"
    by blast
  with i show ?thesis by blast
qed

text \<open>
  C6. An event without a full document (as a delete event is) is broadcast all the same:
  every connected client receives one record, with \<^verbatim>\<open>fullDocument\<close> null. An update
  event whose lookup finds no document is broadcast with \<^verbatim>\<open>fullDocument\<close> null and
  with the update description of the event (null if it has none).
\<close>

theorem missing_document_still_emitted:
  "(\<not> truthy (fullDocument change) \<and> changeStream st = Active \<and> c \<in> sockets st \<longrightarrow>
      inbox (step st (Change change)) c =
        inbox st c @
        [(''orderChanged'',
          Obj [(''op'', operationType change), (''ns'', ns change),
               (''documentKey'', documentKey change), (''fullDocument'', Null),
               (''updateDescription'', js_or (updateDescription change) Null)])]) \<and>
   (operationType change = Str ''update'' \<and> \<not> truthy (lookup (documentKey change)) \<and>
    changeStream st = Active \<and> c \<in> sockets st \<longrightarrow>
      inbox (step st (Change (update_lookup watch_options lookup change))) c =
        inbox st c @
        [(''orderChanged'',
          Obj [(''op'', Str ''update''), (''ns'', ns change),
               (''documentKey'', documentKey change), (''fullDocument'', Null),
               (''updateDescription'', js_or (updateDescription change) Null)])])"
proof (intro conjI impI)
  assume "\<not> truthy (fullDocument change) \<and> changeStream st = Active \<and> c \<in> sockets st"
  then show "inbox (step st (Change change)) c =
        inbox st c @
        [(''orderChanged'',
          Obj [(''op'', operationType change), (''ns'', ns change),
               (''documentKey'', documentKey change), (''fullDocument'', Null),
               (''updateDescription'', js_or (updateDescription change) Null)])]"
    by (simp add: change_to_connected payload_def js_or_def del: step.simps)
next
  assume a: "operationType change = Str ''update'' \<and> \<not> truthy (lookup (documentKey change)) \<and>
    changeStream st = Active \<and> c \<in> sockets st"
  then have "payload (update_lookup watch_options lookup change) =
      Obj [(''op'', Str ''update''), (''ns'', ns change),
               (''documentKey'', documentKey change), (''fullDocument'', Null),
               (''updateDescription'', js_or (updateDescription change) Null)]"
    by (simp add: payload_update_lookup) (simp add: js_or_def)
  with a show "inbox (step st (Change (update_lookup watch_options lookup change))) c =
        inbox st c @
        [(''orderChanged'',
          Obj [(''op'', Str ''update''), (''ns'', ns change),
               (''documentKey'', documentKey change), (''fullDocument'', Null),
               (''updateDescription'', js_or (updateDescription change) Null)])]"
    by (simp add: change_to_connected del: step.simps)
qed

theorem missing_document_still_emitted_witness:
  "inbox (step one_client (Change delete_200)) ''a'' =
     [(''orderChanged'',
       Obj [(''op'', Str ''delete''), (''ns'', orders_ns), (''documentKey'', key_200),
            (''fullDocument'', Null), (''updateDescription'', Null)])] \<and>
   inbox (step one_client (Change (update_lookup watch_options (\<lambda>k. Null) update_200))) ''a'' =
     [(''orderChanged'',
       Obj [(''op'', Str ''update''), (''ns'', orders_ns), (''documentKey'', key_200),
            (''fullDocument'', Null),
            (''updateDescription'',
             Obj [(''updatedFields'', Obj [(''status'', Str ''shipped''),
                                           (''product_name'', Str ''T-shirt XL'')]),
                  (''removedFields'', Arr [])])])]"
proof -
  have h1: "\<not> truthy (fullDocument delete_200) \<and> changeStream one_client = Active \<and>
      ''a'' \<in> sockets one_client"
    by (simp add: delete_200_def one_client_def)
  have h2: "operationType update_200 = Str ''update'' \<and>
      \<not> truthy ((\<lambda>k. Null) (documentKey update_200)) \<and>
      changeStream one_client = Active \<and> ''a'' \<in> sockets one_client"
    by (simp add: update_200_def one_client_def)
  from missing_document_still_emitted [of delete_200 one_client "''a''" "\<lambda>k. Null"] h1
  have "inbox (step one_client (Change delete_200)) ''a'' =
        inbox one_client ''a'' @
        [(''orderChanged'',
          Obj [(''op'', operationType delete_200), (''ns'', ns delete_200),
               (''documentKey'', documentKey delete_200), (''fullDocument'', Null),
               (''updateDescription'', js_or (updateDescription delete_200) Null)])]"
    by blast
  moreover
  from missing_document_still_emitted [of update_200 one_client "''a''" "\<lambda>k. Null"] h2
  have "inbox (step one_client (Change (update_lookup watch_options (\<lambda>k. Null) update_200))) ''a'' =
        inbox one_client ''a'' @
        [(''orderChanged'',
          Obj [(''op'', Str ''update''), (''ns'', ns update_200),
               (''documentKey'', documentKey update_200), (''fullDocument'', Null),
               (''updateDescription'', js_or (updateDescription update_200) Null)])]"
    by blast
  ultimately show ?thesis
    by (simp add: one_client_def delete_200_def update_200_def js_or_def del: step.simps)
qed

section \<open>Connecting and disconnecting\<close>

lemma http_same_view:
  assumes "same_view s t"
  shows "same_view (fst (http r now s)) (fst (http r now t))"
proof -
  from assms have o: "orders s = orders t" "next_object_id s = next_object_id t"
    and rest: "sockets s = sockets t" "inbox s = inbox t" "changeStream s = changeStream t"
    by (simp_all add: same_view_def)
  have "orders (fst (http r now s)) = orders (fst (http r now t)) \<and>
      next_object_id (fst (http r now s)) = next_object_id (fst (http r now t))"
    by (cases r) (simp_all add: o post_orders_def get_orders_def put_order_def delete_order_def
        console_write_def Let_def split: prod.splits sum.splits option.splits)
  then show ?thesis by (simp add: same_view_def http_frame rest)
qed

lemma step_same_view:
  assumes "same_view s t"
  shows "same_view (step s e) (step t e)"
proof (cases e)
  case (Request r now)
  then show ?thesis using http_same_view [OF assms] by simp
qed (use assms in \<open>auto simp add: same_view_def listener_defs\<close>)

lemma run_same_view: "same_view s t \<Longrightarrow> same_view (run s es) (run t es)"
  by (induction es arbitrary: s t) (simp_all add: step_same_view)

text \<open>
  C8. Connecting a socket twice in a row leaves the same set of sockets as connecting it
  once, and so does disconnecting it twice in a row; and whatever happens afterwards, the
  two servers hold the same sockets, have sent every client the same messages, hold the
  same orders and the same stream state (they differ in the console only).
\<close>

theorem register_unregister_idempotent:
  "sockets (step (step st (Connect c)) (Connect c)) = sockets (step st (Connect c)) \<and>
   sockets (step (step st (Disconnect c)) (Disconnect c)) = sockets (step st (Disconnect c)) \<and>
   same_view (run (step (step st (Connect c)) (Connect c)) es) (run (step st (Connect c)) es) \<and>
   same_view (run (step (step st (Disconnect c)) (Disconnect c)) es) (run (step st (Disconnect c)) es)"
proof -
  have c: "same_view (step (step st (Connect c)) (Connect c)) (step st (Connect c))"
    by (simp add: same_view_def listener_defs)
  have d: "same_view (step (step st (Disconnect c)) (Disconnect c)) (step st (Disconnect c))"
    by (simp add: same_view_def listener_defs)
  from c d run_same_view [OF c, of es] run_same_view [OF d, of es] show ?thesis
    by (simp add: same_view_def del: step.simps)
qed


section \<open>The request handlers\<close>













end
